theory Spec2Isabelle
  imports Complex_Main
begin

section \<open>Telemetry simulator: status derivation\<close>

text \<open>
  The status derivation only compares numbers with constants, which involves no rounding:
  its numbers are the reals the doubles denote. The status strings of the source are kept
  as strings.
\<close>

text \<open>\<^verbatim>\<open>this.subsystems.battery.temperature.threshold\<close>, set once in the constructor.\<close>

definition subsystems_battery_temperature_threshold :: real where
  "subsystems_battery_temperature_threshold = 45"

definition getBatteryStatus :: "real \<Rightarrow> real \<Rightarrow> real \<Rightarrow> string" where
  "getBatteryStatus voltage temperature capacity =
     (if temperature > subsystems_battery_temperature_threshold \<or> voltage < 20 \<or> capacity < 60
      then ''critical''
      else if temperature > 35 \<or> voltage < 22 \<or> capacity < 80
      then ''warning''
      else ''normal'')"

section \<open>Double-precision arithmetic\<close>

text \<open>
  The rolling statistics are computed in the double-precision arithmetic of JavaScript,
  and rounding decides whether a standard deviation is zero. A double is modelled as a
  mantissa and an exponent: \<open>Double m e\<close> is the number \<open>m * 2 ^ e\<close>. Results
  of operations are in normal form: mantissa 0 with exponent 0, or a mantissa of exactly
  53 bits. The exponent is unbounded, so overflow, underflow and subnormal numbers are not
  modelled, nor are infinities, \<open>NaN\<close> and the sign of zero.
\<close>

datatype double = Double int int

text \<open>The number of binary digits of a natural number.\<close>

fun bit_length :: "nat \<Rightarrow> nat" where
  "bit_length n = (if n = 0 then 0 else 1 + bit_length (n div 2))"

declare bit_length.simps [simp del]

text \<open>
  Rounding to 53 bits, to nearest with ties to even, as IEEE 754 prescribes for every
  arithmetic operation: \<open>round_to_double m e\<close> is the double nearest to
  \<open>m * 2 ^ e\<close>. A mantissa of \<open>k > 53\<close> bits loses its last \<open>k - 53\<close> bits
  (\<open>nearest_even\<close> picks the neighbour, \<open>carry\<close> renormalises when rounding up
  reaches \<open>2 ^ 53\<close>); a shorter one is shifted up, which is exact.
\<close>

definition carry :: "int \<Rightarrow> int \<Rightarrow> nat \<Rightarrow> double" where
  "carry sg e q = (if q = 2 ^ 53 then Double (sg * 2 ^ 52) (e + 1) else Double (sg * int q) e)"

definition nearest_even :: "nat \<Rightarrow> nat \<Rightarrow> nat \<Rightarrow> nat" where
  "nearest_even q r half = (if r > half \<or> (r = half \<and> odd q) then q + 1 else q)"

definition round_bits :: "int \<Rightarrow> int \<Rightarrow> nat \<Rightarrow> double" where
  "round_bits m e k =
     (if k \<le> 53 then Double (m * 2 ^ (53 - k)) (e - int (53 - k))
      else carry (sgn m) (e + int (k - 53))
             (nearest_even (nat \<bar>m\<bar> div 2 ^ (k - 53)) (nat \<bar>m\<bar> mod 2 ^ (k - 53)) (2 ^ (k - 54))))"

definition round_to_double :: "int \<Rightarrow> int \<Rightarrow> double" where
  "round_to_double m e = (if m = 0 then Double 0 0 else round_bits m e (bit_length (nat \<bar>m\<bar>)))"

text \<open>Negation, absolute value, sum, difference and product: the exact result, rounded.\<close>

fun dbl_neg :: "double \<Rightarrow> double" where
  "dbl_neg (Double m e) = Double (- m) e"


fun dbl_add :: "double \<Rightarrow> double \<Rightarrow> double" where
  "dbl_add (Double m1 e1) (Double m2 e2) =
     round_to_double (m1 * 2 ^ nat (e1 - min e1 e2) + m2 * 2 ^ nat (e2 - min e1 e2)) (min e1 e2)"

definition dbl_sub :: "double \<Rightarrow> double \<Rightarrow> double" where
  "dbl_sub x y = dbl_add x (dbl_neg y)"

fun dbl_mul :: "double \<Rightarrow> double \<Rightarrow> double" where
  "dbl_mul (Double m1 e1) (Double m2 e2) = round_to_double (m1 * m2) (e1 + e2)"

text \<open>
  Division: the quotient of the scaled mantissas with at least 55 bits, followed by one
  bit that tells whether a remainder was cut off, rounded. (The source never divides by
  zero here: the divisors are a length of at least 10, a positive deviation and 2.)
\<close>

definition sticky_bit :: "bool \<Rightarrow> int" where
  "sticky_bit exact = (if exact then 0 else 1)"

definition quotient_sticky :: "int \<Rightarrow> int \<Rightarrow> int" where
  "quotient_sticky n d = 2 * (n div d) + sticky_bit (n mod d = 0)"

definition divide_scaled :: "int \<Rightarrow> int \<Rightarrow> int \<Rightarrow> int \<Rightarrow> nat \<Rightarrow> double" where
  "divide_scaled m1 e1 m2 e2 b =
     round_to_double (sgn m1 * sgn m2 * quotient_sticky (\<bar>m1\<bar> * 2 ^ b) \<bar>m2\<bar>) (e1 - e2 - int b - 1)"

fun dbl_div :: "double \<Rightarrow> double \<Rightarrow> double" where
  "dbl_div (Double m1 e1) (Double m2 e2) =
     (if m2 = 0 then Double 0 0 else divide_scaled m1 e1 m2 e2 (55 + bit_length (nat \<bar>m2\<bar>)))"

text \<open>
  \<^verbatim>\<open>Math.sqrt\<close>: the integer square root of the scaled mantissa, followed by the
  bit that tells whether it is exact, rounded. (The source takes the root of a variance,
  which is never negative.)
\<close>

definition isqrt_step :: "nat \<Rightarrow> nat \<Rightarrow> nat" where
  "isqrt_step n r = (if (r + 1) * (r + 1) \<le> n then r + 1 else r)"

fun isqrt :: "nat \<Rightarrow> nat" where
  "isqrt n = (if n < 2 then n else isqrt_step n (2 * isqrt (n div 4)))"

declare isqrt.simps [simp del]

definition root_digits :: "nat \<Rightarrow> nat \<Rightarrow> int" where
  "root_digits n s = 2 * int s + sticky_bit (s * s = n)"

definition root_scaled :: "nat \<Rightarrow> int \<Rightarrow> double" where
  "root_scaled n e = round_to_double (root_digits n (isqrt n)) (e div 2 - 1)"

fun dbl_sqrt :: "double \<Rightarrow> double" where
  "dbl_sqrt (Double m e) =
     (if m \<le> 0 then Double 0 0
      else root_scaled (nat m * 2 ^ nat (e mod 2) * 2 ^ 112) (e - e mod 2 - 112))"




text \<open>\<^verbatim>\<open>Math.pow(x, 2)\<close>, which the engine computes as the rounded product \<^verbatim>\<open>x * x\<close>.\<close>

definition dbl_pow2 :: "double \<Rightarrow> double" where
  "dbl_pow2 x = dbl_mul x x"

text \<open>An array length as a number.\<close>

definition dbl_of_nat :: "nat \<Rightarrow> double" where
  "dbl_of_nat n = round_to_double (int n) 0"

text \<open>The real number a double denotes.\<close>

fun real_of_double :: "double \<Rightarrow> real" where
  "real_of_double (Double m e) =
     (if 0 \<le> e then real_of_int m * 2 ^ nat e else real_of_int m / 2 ^ nat (- e))"

text \<open>The literals of the source: 0, 1, 2, and the double nearest to 0.999.\<close>

definition dbl_0 :: double where
  "dbl_0 = Double 0 0"

definition dbl_1 :: double where
  "dbl_1 = Double 4503599627370496 (-52)"

definition dbl_2 :: double where
  "dbl_2 = Double 4503599627370496 (-51)"

definition dbl_0999 :: double where
  "dbl_0999 = Double 8998192055486251 (-53)"

section \<open>Rolling statistical model\<close>

record StatisticalModel =
  windowSize :: nat
  dataPoints :: "double list"
  mean :: double
  variance :: double
  standardDeviation :: double

text \<open>The constructor; the detector uses the default window size 100.\<close>

definition StatisticalModel_new :: "nat \<Rightarrow> StatisticalModel" where
  "StatisticalModel_new w =
     \<lparr>windowSize = w, dataPoints = [], mean = dbl_0, variance = dbl_0, standardDeviation = dbl_0\<rparr>"

definition updateStatistics :: "StatisticalModel \<Rightarrow> StatisticalModel" where
  "updateStatistics m =
     (if length (dataPoints m) < 10 then m
      else
        let mu = dbl_div (foldl (\<lambda>sum val. dbl_add sum val) dbl_0 (dataPoints m))
                   (dbl_of_nat (length (dataPoints m)));
            var = dbl_div
                    (foldl (\<lambda>sum val. dbl_add sum (dbl_pow2 (dbl_sub val mu))) dbl_0 (dataPoints m))
                    (dbl_of_nat (length (dataPoints m)))
        in m\<lparr>mean := mu, variance := var, standardDeviation := dbl_sqrt var\<rparr>)"

definition addDataPoint :: "StatisticalModel \<Rightarrow> double \<Rightarrow> StatisticalModel" where
  "addDataPoint m v =
     (let pushed = dataPoints m @ [v];
          kept = (if length pushed > windowSize m then tl pushed else pushed)
      in updateStatistics (m\<lparr>dataPoints := kept\<rparr>))"







text \<open>The states a model can be in: a fresh model fed any sequence of samples.\<close>

definition model_after :: "nat \<Rightarrow> double list \<Rightarrow> StatisticalModel" where
  "model_after w vs = foldl addDataPoint (StatisticalModel_new w) vs"

section \<open>Anomaly detector: alert lifecycle\<close>

text \<open>
  What a detector emits for one finding. The lifecycle code reads only these four fields
  of it; the remaining ones (value, threshold, score, message, recommendation, explanation)
  are carried along untouched and are left out.
\<close>

record detection =
  anomalyType :: string
  severity :: string
  subsystem :: string
  parameter :: string

text \<open>
  An alert object once \<^verbatim>\<open>processDetectedAnomalies\<close> has added its metadata.
  \<open>acknowledgedAt\<close> and \<open>acknowledgedBy\<close> are absent (\<open>None\<close>) until set.
  (The source's fields \<^verbatim>\<open>type\<close> and \<^verbatim>\<open>id\<close> are called \<open>anomalyType\<close> and
  \<open>anomalyId\<close> here.) Timestamps are milliseconds.
\<close>

record anomaly = detection +
  anomalyId :: string
  timestamp :: int
  acknowledged :: bool
  acknowledgedAt :: "int option"
  acknowledgedBy :: "string option"

text \<open>
  The arrays \<^verbatim>\<open>anomalies\<close> and \<^verbatim>\<open>anomalyHistory\<close> hold references to
  the same alert objects, and the code mutates the objects in place. The objects therefore
  live in a store (\<open>heap\<close>, addressed by position) and the two arrays hold addresses.
\<close>

record AnomalyDetector =
  heap :: "anomaly list"
  anomalies :: "nat list"
  anomalyHistory :: "nat list"

definition AnomalyDetector_new :: AnomalyDetector where
  "AnomalyDetector_new = \<lparr>heap = [], anomalies = [], anomalyHistory = []\<rparr>"

definition with_metadata :: "detection \<Rightarrow> string \<Rightarrow> int \<Rightarrow> anomaly" where
  "with_metadata d i ts =
     \<lparr>anomalyType = anomalyType d, severity = severity d, subsystem = subsystem d,
      parameter = parameter d, anomalyId = i, timestamp = ts, acknowledged = False,
      acknowledgedAt = None, acknowledgedBy = None\<rparr>"

text \<open>
  \<open>now\<close> is the value of \<^verbatim>\<open>Date.now()\<close> while the call runs (the clock is taken
  not to advance within one synchronous call). It is a parameter of its own: the source
  compares the wall clock, not the new alert's timestamp, with the stored timestamps.
\<close>

definition isDuplicateAnomaly :: "int \<Rightarrow> AnomalyDetector \<Rightarrow> anomaly \<Rightarrow> bool" where
  "isDuplicateAnomaly now s newAnomaly =
     (let recentAnomalies = filter (\<lambda>a. now - timestamp (heap s ! a) < 30000) (anomalies s)
      in list_ex (\<lambda>existing.
            subsystem (heap s ! existing) = subsystem newAnomaly \<and>
            parameter (heap s ! existing) = parameter newAnomaly \<and>
            anomalyType (heap s ! existing) = anomalyType newAnomaly \<and>
            severity (heap s ! existing) = severity newAnomaly) recentAnomalies)"

text \<open>The filter callback of \<^verbatim>\<open>cleanupOldAnomalies\<close>, which marks the objects it drops.\<close>

fun cleanup_filter :: "int \<Rightarrow> nat list \<Rightarrow> anomaly list \<Rightarrow> nat list \<times> anomaly list" where
  "cleanup_filter now [] h = ([], h)"
| "cleanup_filter now (a # as) h =
     (if now - timestamp (h ! a) > 300000
      then cleanup_filter now as
             (if \<not> acknowledged (h ! a)
              then h[a := (h ! a)\<lparr>acknowledged := True, acknowledgedAt := Some now,
                                  acknowledgedBy := Some ''auto-cleanup''\<rparr>]
              else h)
      else (let (kept, h') = cleanup_filter now as h in (a # kept, h')))"

definition cleanupOldAnomalies :: "int \<Rightarrow> AnomalyDetector \<Rightarrow> AnomalyDetector" where
  "cleanupOldAnomalies now s =
     (let (kept, h) = cleanup_filter now (anomalies s) (heap s)
      in s\<lparr>heap := h, anomalies := kept\<rparr>)"

text \<open>
  One round of the loop of \<^verbatim>\<open>processDetectedAnomalies\<close>. Each finding comes with
  the string \<^verbatim>\<open>generateAnomalyId()\<close> returns for it (clock and random digits).
\<close>

definition submit :: "int \<Rightarrow> int \<Rightarrow> AnomalyDetector \<Rightarrow> detection \<times> string \<Rightarrow> AnomalyDetector" where
  "submit ts now s di =
     (let a = with_metadata (fst di) (snd di) ts
      in if \<not> isDuplicateAnomaly now s a
         then s\<lparr>heap := heap s @ [a],
                anomalies := anomalies s @ [length (heap s)],
                anomalyHistory := anomalyHistory s @ [length (heap s)]\<rparr>
         else s)"

definition processDetectedAnomalies ::
  "(detection \<times> string) list \<Rightarrow> int \<Rightarrow> int \<Rightarrow> AnomalyDetector \<Rightarrow> AnomalyDetector" where
  "processDetectedAnomalies detected ts now s =
     (let s1 = foldl (submit ts now) s detected;
          s2 = cleanupOldAnomalies now s1
      in if length (anomalyHistory s2) > 1000
         then s2\<lparr>anomalyHistory :=
                   drop (length (anomalyHistory s2) - 500) (anomalyHistory s2)\<rparr>
         else s2)"

text \<open>
  \<^verbatim>\<open>processTelemetry\<close>: \<open>detected\<close> is the array the four detectors filled for this
  sample and \<open>ts\<close> the sample's timestamp. \<^verbatim>\<open>updateModels\<close> touches the scorer
  objects only, which are modelled on their own below.
\<close>

definition processTelemetry ::
  "(detection \<times> string) list \<Rightarrow> int \<Rightarrow> int \<Rightarrow> AnomalyDetector \<Rightarrow> AnomalyDetector" where
  "processTelemetry detected ts now s =
     (if length detected > 0 then processDetectedAnomalies detected ts now s else s)"

definition getActiveAnomalies :: "AnomalyDetector \<Rightarrow> nat list" where
  "getActiveAnomalies s = filter (\<lambda>a. \<not> acknowledged (heap s ! a)) (anomalies s)"


definition acknowledgeAnomaly ::
  "string \<Rightarrow> string \<Rightarrow> int \<Rightarrow> AnomalyDetector \<Rightarrow> bool \<times> AnomalyDetector" where
  "acknowledgeAnomaly i operator now s =
     (case find (\<lambda>a. anomalyId (heap s ! a) = i) (anomalies s) of
        Some a \<Rightarrow>
          (let h = (heap s)[a := (heap s ! a)\<lparr>acknowledged := True, acknowledgedAt := Some now,
                                               acknowledgedBy := Some operator\<rparr>]
           in (True, s\<lparr>heap := h,
                       anomalies := filter (\<lambda>b. anomalyId (h ! b) \<noteq> i) (anomalies s)\<rparr>))
      | None \<Rightarrow> (False, s))"

text \<open>The states the detector can reach, with arbitrary clock readings.\<close>

inductive reachable :: "AnomalyDetector \<Rightarrow> bool" where
  reachable_new: "reachable AnomalyDetector_new"
| reachable_tick: "reachable s \<Longrightarrow> reachable (processTelemetry detected ts now s)"
| reachable_ack: "reachable s \<Longrightarrow> reachable (snd (acknowledgeAnomaly i operator now s))"

text \<open>
  The states reached when every sample is processed at the instant of its own timestamp
  (\<^verbatim>\<open>Date.now()\<close> at the duplicate check equals \<^verbatim>\<open>telemetryData.timestamp\<close>).
\<close>

inductive synchronous :: "AnomalyDetector \<Rightarrow> bool" where
  synchronous_new: "synchronous AnomalyDetector_new"
| synchronous_tick: "synchronous s \<Longrightarrow> synchronous (processTelemetry detected ts ts s)"
| synchronous_ack: "synchronous s \<Longrightarrow> synchronous (snd (acknowledgeAnomaly i operator now s))"

definition same_key :: "'a detection_scheme \<Rightarrow> 'b detection_scheme \<Rightarrow> bool" where
  "same_key a b \<longleftrightarrow>
     subsystem a = subsystem b \<and> parameter a = parameter b \<and>
     anomalyType a = anomalyType b \<and> severity a = severity b"

text \<open>No two alerts of a list share a key with detection times less than 30 s apart.\<close>

fun dedup_ok :: "anomaly list \<Rightarrow> bool" where
  "dedup_ok [] = True"
| "dedup_ok (x # xs) =
     (list_all (\<lambda>y. same_key x y \<longrightarrow> \<bar>timestamp x - timestamp y\<bar> \<ge> 30000) xs \<and> dedup_ok xs)"

definition active_alerts :: "AnomalyDetector \<Rightarrow> anomaly list" where
  "active_alerts s = map (\<lambda>a. heap s ! a) (anomalies s)"

text \<open>Two findings of the threshold detector, used in the examples.\<close>

definition battery_temp_critical :: detection where
  "battery_temp_critical =
     \<lparr>anomalyType = ''threshold'', severity = ''critical'', subsystem = ''battery'',
      parameter = ''temperature''\<rparr>"

definition solar_power_warning :: detection where
  "solar_power_warning =
     \<lparr>anomalyType = ''threshold'', severity = ''warning'', subsystem = ''solar'',
      parameter = ''power''\<rparr>"

section \<open>Partitioning scorer (isolation forest)\<close>

text \<open>
  A JavaScript number is a real or \<open>NaN\<close>. The infinities are left out: the scorer
  divides only by the number of trees, which is positive where the division is reached,
  and by \<^verbatim>\<open>Math.log2(this.subsampleSize)\<close>, which is positive for the
  subsample size 50 the detector constructs the forest with. A zero divisor is mapped to
  \<open>NaN\<close>.
\<close>

datatype number = NaN | Num real

fun num_add :: "number \<Rightarrow> number \<Rightarrow> number" where
  "num_add (Num a) (Num b) = Num (a + b)"
| "num_add _ _ = NaN"

fun num_sub :: "number \<Rightarrow> number \<Rightarrow> number" where
  "num_sub (Num a) (Num b) = Num (a - b)"
| "num_sub _ _ = NaN"

fun num_mul :: "number \<Rightarrow> number \<Rightarrow> number" where
  "num_mul (Num a) (Num b) = Num (a * b)"
| "num_mul _ _ = NaN"

fun num_div :: "number \<Rightarrow> number \<Rightarrow> number" where
  "num_div (Num a) (Num b) = (if b = 0 then NaN else Num (a / b))"
| "num_div _ _ = NaN"

text \<open>Comparisons with \<open>NaN\<close> are false, also \<^verbatim>\<open>NaN === NaN\<close>.\<close>

fun num_lt :: "number \<Rightarrow> number \<Rightarrow> bool" where
  "num_lt (Num a) (Num b) = (a < b)"
| "num_lt _ _ = False"

fun num_ge :: "number \<Rightarrow> number \<Rightarrow> bool" where
  "num_ge (Num a) (Num b) = (a \<ge> b)"
| "num_ge _ _ = False"

fun num_eq :: "number \<Rightarrow> number \<Rightarrow> bool" where
  "num_eq (Num a) (Num b) = (a = b)"
| "num_eq _ _ = False"

text \<open>\<^verbatim>\<open>Math.min\<close> and \<^verbatim>\<open>Math.max\<close> return \<open>NaN\<close> as soon as one argument is.\<close>

fun Math_min :: "number \<Rightarrow> number \<Rightarrow> number" where
  "Math_min (Num a) (Num b) = Num (min a b)"
| "Math_min _ _ = NaN"

fun Math_max :: "number \<Rightarrow> number \<Rightarrow> number" where
  "Math_max (Num a) (Num b) = Num (max a b)"
| "Math_max _ _ = NaN"

text \<open>
  The spread forms \<^verbatim>\<open>Math.min(...xs)\<close> and \<^verbatim>\<open>Math.max(...xs)\<close>. The source
  calls them on at least two values; on no value at all JavaScript yields an infinity,
  which is outside this model.
\<close>

fun Math_min_of :: "number list \<Rightarrow> number" where
  "Math_min_of [] = NaN"
| "Math_min_of (x # xs) = foldl Math_min x xs"

fun Math_max_of :: "number list \<Rightarrow> number" where
  "Math_max_of [] = NaN"
| "Math_max_of (x # xs) = foldl Math_max x xs"

text \<open>
  A tree node is either \<^verbatim>\<open>{ size }\<close> or
  \<^verbatim>\<open>{ featureIndex, splitValue, left, right }\<close>.
\<close>

datatype itree = Leaf nat | Node nat number itree itree

record IsolationForest =
  numTrees :: nat
  subsampleSize :: nat
  trees :: "itree list"
  trainingData :: "real list list"
  trained :: bool

definition IsolationForest_new :: "nat \<Rightarrow> nat \<Rightarrow> IsolationForest" where
  "IsolationForest_new n m =
     \<lparr>numTrees = n, subsampleSize = m, trees = [], trainingData = [], trained = False\<rparr>"

text \<open>\<^verbatim>\<open>point[featureIndex]\<close>: reading past the end gives \<^verbatim>\<open>undefined\<close>, as a number \<open>NaN\<close>.\<close>

definition feature :: "real list \<Rightarrow> nat \<Rightarrow> number" where
  "feature point i = (if i < length point then Num (point ! i) else NaN)"

text \<open>
  \<open>rnd\<close> is the sequence of values \<^verbatim>\<open>Math.random()\<close> returns to
  \<^verbatim>\<open>buildTree\<close>, each in \<open>[0, 1)\<close>; \<open>k\<close> counts the values used so far, and
  is returned with the tree. The object literal evaluates \<^verbatim>\<open>left\<close> before
  \<^verbatim>\<open>right\<close>.
\<close>

function buildTree ::
  "(nat \<Rightarrow> real) \<Rightarrow> real list list \<Rightarrow> nat \<Rightarrow> nat \<Rightarrow> nat \<Rightarrow> itree \<times> nat" where
  "buildTree rnd data currentDepth maxDepth k =
     (if currentDepth \<ge> maxDepth \<or> length data \<le> 1 then (Leaf (length data), k)
      else
        let featureIndex = nat \<lfloor>rnd k * real (length (hd data))\<rfloor>;
            featureValues = map (\<lambda>point. feature point featureIndex) data;
            minVal = Math_min_of featureValues;
            maxVal = Math_max_of featureValues
        in if num_eq minVal maxVal then (Leaf (length data), k + 1)
           else
             let splitValue = num_add minVal (num_mul (Num (rnd (k + 1))) (num_sub maxVal minVal));
                 leftData = filter (\<lambda>point. num_lt (feature point featureIndex) splitValue) data;
                 rightData = filter (\<lambda>point. num_ge (feature point featureIndex) splitValue) data;
                 l = buildTree rnd leftData (currentDepth + 1) maxDepth (k + 2);
                 r = buildTree rnd rightData (currentDepth + 1) maxDepth (snd l)
             in (Node featureIndex splitValue (fst l) (fst r), snd r))"
  by pat_completeness auto
termination
  by (relation "measure (\<lambda>(rnd, data, currentDepth, maxDepth, k). maxDepth - currentDepth)") auto

declare buildTree.simps [simp del]

text \<open>
  \<^verbatim>\<open>c(n)\<close>. Its argument is \<^verbatim>\<open>tree.size\<close>, which is \<^verbatim>\<open>undefined\<close>
  (\<open>None\<close>) on a node without that field: then \<^verbatim>\<open>n <= 1\<close> is false and the
  arithmetic yields \<open>NaN\<close>.
\<close>

fun c_of :: "nat option \<Rightarrow> number" where
  "c_of None = NaN"
| "c_of (Some n) =
     (if n \<le> 1 then Num 0
      else Num (2 * (ln (real n - 1) + 0.5772156649) - 2 * (real n - 1) / real n))"

text \<open>
  \<^verbatim>\<open>if (!tree.featureIndex)\<close> holds on a leaf, where the field is absent, and also
  on an inner node whose feature index is 0.
\<close>

fun getPathLength :: "real list \<Rightarrow> itree \<Rightarrow> nat \<Rightarrow> number" where
  "getPathLength features (Leaf n) currentDepth =
     num_add (Num (real currentDepth)) (c_of (Some n))"
| "getPathLength features (Node featureIndex splitValue l r) currentDepth =
     (if featureIndex = 0 then num_add (Num (real currentDepth)) (c_of None)
      else if num_lt (feature features featureIndex) splitValue
      then getPathLength features l (currentDepth + 1)
      else getPathLength features r (currentDepth + 1))"

definition predict :: "IsolationForest \<Rightarrow> real list \<Rightarrow> number" where
  "predict f features =
     (if \<not> trained f \<or> length (trees f) = 0 then Num 0
      else
        let pathLengths = map (\<lambda>tree. getPathLength features tree 0) (trees f);
            avgPathLength = num_div (foldl (\<lambda>sum len. num_add sum len) (Num 0) pathLengths)
                              (Num (real (length pathLengths)));
            expectedPathLength = Num (log 2 (real (subsampleSize f)))
        in Math_max (Num 0)
             (Math_min (Num 1) (num_sub (Num 1) (num_div avgPathLength expectedPathLength))))"

text \<open>
  \<^verbatim>\<open>createSubsample\<close> sorts a copy of the pool with a comparator that answers at
  random; which permutation results depends on the engine's sort. \<open>shuf\<close> stands for
  that outcome (a permutation of its argument).
\<close>

definition createSubsample ::
  "(real list list \<Rightarrow> real list list) \<Rightarrow> IsolationForest \<Rightarrow> real list list" where
  "createSubsample shuf f =
     (let shuffled = shuf (trainingData f)
      in take (min (subsampleSize f) (length shuffled)) shuffled)"

text \<open>The loop of \<^verbatim>\<open>train\<close>: \<open>n\<close> rounds remain, \<open>i\<close> is the loop counter.\<close>

fun train_loop ::
  "(nat \<Rightarrow> real) \<Rightarrow> (nat \<Rightarrow> real list list \<Rightarrow> real list list) \<Rightarrow> IsolationForest \<Rightarrow>
     nat \<Rightarrow> nat \<Rightarrow> itree list \<Rightarrow> nat \<Rightarrow> itree list \<times> nat" where
  "train_loop rnd shufs f 0 i ts k = (ts, k)"
| "train_loop rnd shufs f (Suc n) i ts k =
     (let subsample = createSubsample (shufs i) f;
          tree = buildTree rnd subsample 0 (nat \<lceil>log 2 (real (subsampleSize f))\<rceil>) k
      in train_loop rnd shufs f n (i + 1) (ts @ [fst tree]) (snd tree))"

definition train ::
  "(nat \<Rightarrow> real) \<Rightarrow> (nat \<Rightarrow> real list list \<Rightarrow> real list list) \<Rightarrow> nat \<Rightarrow> IsolationForest \<Rightarrow>
     IsolationForest \<times> nat" where
  "train rnd shufs k f =
     (if length (trainingData f) < 20 then (f, k)
      else
        let built = train_loop rnd shufs f (numTrees f) 0 [] k
        in (f\<lparr>trees := fst built, trained := True\<rparr>, snd built))"

definition addTrainingData ::
  "(nat \<Rightarrow> real) \<Rightarrow> (nat \<Rightarrow> real list list \<Rightarrow> real list list) \<Rightarrow> nat \<Rightarrow> IsolationForest \<Rightarrow>
     real list \<Rightarrow> IsolationForest \<times> nat" where
  "addTrainingData rnd shufs k f features =
     (let pushed = trainingData f @ [features];
          kept = (if length pushed > 500 then tl pushed else pushed);
          f' = f\<lparr>trainingData := kept\<rparr>
      in if length kept mod 50 = 0 \<and> length kept \<ge> 100 then train rnd shufs k f'
         else (f', k))"

text \<open>Feeding a sequence of feature vectors, one call of \<^verbatim>\<open>addTrainingData\<close> each.\<close>

fun feed ::
  "(nat \<Rightarrow> real) \<Rightarrow> (nat \<Rightarrow> real list list \<Rightarrow> real list list) \<Rightarrow> IsolationForest \<times> nat \<Rightarrow>
     real list list \<Rightarrow> IsolationForest \<times> nat" where
  "feed rnd shufs fk [] = fk"
| "feed rnd shufs fk (v # vs) =
     feed rnd shufs (addTrainingData rnd shufs (snd fk) (fst fk) v) vs"

section \<open>Telemetry simulator: histories and fault injection\<close>

text \<open>
  \<^verbatim>\<open>this.dataHistory\<close>. A telemetry point is one object holding the readings of all
  subsystems; its content plays no part in what follows and is a type parameter.
  (The source's fields \<^verbatim>\<open>power\<close> and \<^verbatim>\<open>anomalies\<close> are called
  \<open>power_history\<close> and \<open>anomalies_history\<close> here.)
\<close>

record 'p dataHistory =
  power_history :: "'p list"
  thermal :: "'p list"
  communication :: "'p list"
  attitude :: "'p list"
  anomalies_history :: "'p list"

text \<open>
  The simulator's state. \<open>timers\<close> is the part of the browser's timer queue the
  simulator fills: the pending one-shot callbacks of \<^verbatim>\<open>setTimeout\<close>, each with the
  time it falls due and the subsystem its closure captured.
\<close>

record 'p TelemetrySimulator =
  startTime :: int
  isRunning :: bool
  dataHistory :: "'p dataHistory"
  simulatedFailures :: "string \<rightharpoonup> bool"
  missionPhase :: string
  timers :: "(int \<times> string) list"

text \<open>The fields as the constructor sets them, before it fills the history.\<close>

definition TelemetrySimulator_new :: "int \<Rightarrow> 'p TelemetrySimulator" where
  "TelemetrySimulator_new now =
     \<lparr>startTime = now, isRunning = False,
      dataHistory = \<lparr>power_history = [], thermal = [], communication = [], attitude = [],
                     anomalies_history = []\<rparr>,
      simulatedFailures = [''battery'' \<mapsto> False, ''solar'' \<mapsto> False, ''thermal'' \<mapsto> False,
                           ''communication'' \<mapsto> False],
      missionPhase = ''nominal'', timers = []\<rparr>"

text \<open>
  \<^verbatim>\<open>generateTelemetryPoint\<close>, from the point where the sample has been put
  together: \<open>telemetryPoint\<close> is the new object.
\<close>

definition generateTelemetryPoint :: "'p \<Rightarrow> 'p TelemetrySimulator \<Rightarrow> 'p TelemetrySimulator" where
  "generateTelemetryPoint telemetryPoint s =
     (let h = dataHistory s;
          h1 = h\<lparr>power_history := power_history h @ [telemetryPoint],
                 thermal := thermal h @ [telemetryPoint],
                 communication := communication h @ [telemetryPoint]\<rparr>;
          h2 = (if length (power_history h1) > 300
                then h1\<lparr>power_history := tl (power_history h1), thermal := tl (thermal h1),
                        communication := tl (communication h1)\<rparr>
                else h1)
      in s\<lparr>dataHistory := h2\<rparr>)"

text \<open>
  \<^verbatim>\<open>initializeHistory\<close>, which the constructor ends with: one call of
  \<^verbatim>\<open>generateTelemetryPoint\<close> for each of the 60 points it makes up.
\<close>

definition initializeHistory :: "'p list \<Rightarrow> 'p TelemetrySimulator \<Rightarrow> 'p TelemetrySimulator" where
  "initializeHistory points s = foldl (\<lambda>s' p. generateTelemetryPoint p s') s points"

text \<open>
  \<^verbatim>\<open>obj[key] = v\<close> on the flag object, for a boolean \<open>v\<close>. Any string is a key;
  only \<^verbatim>\<open>__proto__\<close> is not stored, its setter ignoring a value that is no object.
\<close>

definition put_property :: "(string \<rightharpoonup> bool) \<Rightarrow> string \<Rightarrow> bool \<Rightarrow> (string \<rightharpoonup> bool)" where
  "put_property obj key v = (if key = ''__proto__'' then obj else obj(key \<mapsto> v))"

definition clearFailure :: "string \<Rightarrow> 'p TelemetrySimulator \<Rightarrow> 'p TelemetrySimulator" where
  "clearFailure sub s = s\<lparr>simulatedFailures := put_property (simulatedFailures s) sub False\<rparr>"

definition simulateFailure :: "string \<Rightarrow> int \<Rightarrow> 'p TelemetrySimulator \<Rightarrow> 'p TelemetrySimulator" where
  "simulateFailure sub now s =
     s\<lparr>simulatedFailures := put_property (simulatedFailures s) sub True,
       timers := timers s @ [(now + 30000, sub)]\<rparr>"

text \<open>The timer queue at time \<open>now\<close>: the callbacks that are due run, in the order they were armed.\<close>

definition runTimers :: "int \<Rightarrow> 'p TelemetrySimulator \<Rightarrow> 'p TelemetrySimulator" where
  "runTimers now s =
     foldl (\<lambda>s' t. clearFailure (snd t) s')
       (s\<lparr>timers := filter (\<lambda>t. \<not> fst t \<le> now) (timers s)\<rparr>)
       (filter (\<lambda>t. fst t \<le> now) (timers s))"

definition pending :: "string \<Rightarrow> 'p TelemetrySimulator \<Rightarrow> nat" where
  "pending sub s = length (filter (\<lambda>t. snd t = sub) (timers s))"

section \<open>Reachable states\<close>

text \<open>
  The scorer's states: a fresh forest, fed vectors and retrained by hand
  (\<^verbatim>\<open>trainMLModels\<close> calls \<^verbatim>\<open>train\<close>), with any random outcomes.
\<close>

inductive forest_reachable :: "IsolationForest \<Rightarrow> bool" where
  forest_new: "forest_reachable (IsolationForest_new n m)"
| forest_add: "forest_reachable f \<Longrightarrow> forest_reachable (fst (addTrainingData rnd shufs k f features))"
| forest_train: "forest_reachable f \<Longrightarrow> forest_reachable (fst (train rnd shufs k f))"

text \<open>The simulator's states: any interleaving of ticks, fault commands and timer runs.\<close>

inductive sim_reachable :: "'p TelemetrySimulator \<Rightarrow> bool" where
  sim_new: "sim_reachable (TelemetrySimulator_new t0)"
| sim_tick: "sim_reachable s \<Longrightarrow> sim_reachable (generateTelemetryPoint telemetryPoint s)"
| sim_inject: "sim_reachable s \<Longrightarrow> sim_reachable (simulateFailure sub now s)"
| sim_clear: "sim_reachable s \<Longrightarrow> sim_reachable (clearFailure sub s)"
| sim_timers: "sim_reachable s \<Longrightarrow> sim_reachable (runTimers now s)"

section \<open>Auxiliary notions\<close>

text \<open>The fields of an alert that are never written after its creation.\<close>

definition core :: "anomaly \<Rightarrow> string \<times> string \<times> string \<times> string \<times> int \<times> string" where
  "core a = (subsystem a, parameter a, anomalyType a, severity a, timestamp a, anomalyId a)"

text \<open>Every reference held in the two arrays points into the store.\<close>

definition wf :: "AnomalyDetector \<Rightarrow> bool" where
  "wf s \<longleftrightarrow> (\<forall>a \<in> set (anomalies s). a < length (heap s)) \<and>
            (\<forall>a \<in> set (anomalyHistory s). a < length (heap s))"

definition histories_ok :: "'p dataHistory \<Rightarrow> bool" where
  "histories_ok h \<longleftrightarrow>
     length (power_history h) \<le> 300 \<and> length (thermal h) = length (power_history h) \<and>
     length (communication h) = length (power_history h) \<and> attitude h = [] \<and>
     anomalies_history h = []"

text \<open>The subsystem names the simulator has a flag for from the start.\<close>

definition known_subsystems :: "string set" where
  "known_subsystems = {''battery'', ''solar'', ''thermal'', ''communication''}"

section \<open>Sample inputs\<close>


definition dbl_4 :: double where
  "dbl_4 = Double 4503599627370496 (-50)"

definition dbl_1000 :: double where
  "dbl_1000 = Double 8796093022208000 (-43)"

definition eclipse_power :: double where
  "eclipse_power = Double 8275364315293286 (-45)"

definition sunlit_power :: double where
  "sunlit_power = Double 4618608543635866 (-41)"

text \<open>
  Alert scenarios. One critical battery-temperature finding at time 0; then the same finding
  again from a sample stamped 29999 and checked when the clock reads 30000, or from a
  sample stamped and checked at 30000; a tick without findings at 400000; and a tick with
  another finding 25 hours later.
\<close>

definition one_alert :: AnomalyDetector where
  "one_alert = processTelemetry [(battery_temp_critical, ''a1'')] 0 0 AnomalyDetector_new"

definition skewed_pair :: AnomalyDetector where
  "skewed_pair = processTelemetry [(battery_temp_critical, ''a2'')] 29999 30000 one_alert"

definition spaced_pair :: AnomalyDetector where
  "spaced_pair = processTelemetry [(battery_temp_critical, ''a2'')] 30000 30000 one_alert"



text \<open>
  A training run. The pool is one hundred feature vectors (battery voltage, current and
  temperature, solar power, processor and battery temperature, signal strength, error
  rate), the first with a battery voltage of 25, the others all alike with 24; the hundredth
  \<^verbatim>\<open>addTrainingData\<close> retrains. \<open>draws\<close> are the random numbers handed to
  \<^verbatim>\<open>buildTree\<close>: 0 picks feature 0, 1/2 puts the split in the middle.
  \<open>unshuffled\<close> is the sort that leaves the copy in its order.
\<close>

definition nominal_vector :: "real list" where
  "nominal_vector = [24, -1.5, 20, 2352, 35, 20, -85, 0.001]"

definition odd_vector :: "real list" where
  "odd_vector = [25, -1.5, 20, 2352, 35, 20, -85, 0.001]"

definition pool :: "real list list" where
  "pool = odd_vector # replicate 99 nominal_vector"

definition draws :: "nat \<Rightarrow> real" where
  "draws k = (if k mod 3 = 1 then 1 / 2 else 0)"

definition unshuffled :: "nat \<Rightarrow> real list list \<Rightarrow> real list list" where
  "unshuffled i xs = xs"

definition trained_forest :: IsolationForest where
  "trained_forest = fst (feed draws unshuffled (IsolationForest_new 10 50, 0) pool)"

definition split_on_first :: itree where
  "split_on_first = Node 0 (Num 24.5) (Leaf 49) (Leaf 1)"

text \<open>A simulator started at time 0, and two battery faults injected 10 s apart.\<close>

definition fresh_simulator :: "unit TelemetrySimulator" where
  "fresh_simulator = TelemetrySimulator_new 0"

definition injected_twice :: "unit TelemetrySimulator" where
  "injected_twice = simulateFailure ''battery'' 10000 (simulateFailure ''battery'' 0 fresh_simulator)"

section \<open>Status derivation: results\<close>

text \<open>
  C3: the battery status is a function of voltage, temperature and capacity alone; it is
  critical exactly when voltage < 20 or temperature > 45 or capacity < 60, otherwise warning
  exactly when voltage < 22 or temperature > 35 or capacity < 80, otherwise normal.
\<close>

theorem getBatteryStatus_thresholds:
  "getBatteryStatus v t c =
     (if v < 20 \<or> t > 45 \<or> c < 60 then ''critical''
      else if v < 22 \<or> t > 35 \<or> c < 80 then ''warning''
      else ''normal'')"
  by (auto simp: getBatteryStatus_def subsystems_battery_temperature_threshold_def)

theorem getBatteryStatus_thresholds_witness:
  "getBatteryStatus 19 20 100 = ''critical'' \<and> getBatteryStatus 24 50 100 = ''critical''
   \<and> getBatteryStatus 24 20 59 = ''critical'' \<and> getBatteryStatus 21 20 100 = ''warning''
   \<and> getBatteryStatus 24 40 100 = ''warning'' \<and> getBatteryStatus 24 20 70 = ''warning''
   \<and> getBatteryStatus 24 20 100 = ''normal''"
  using getBatteryStatus_thresholds [of 19 20 100] getBatteryStatus_thresholds [of 24 50 100]
    getBatteryStatus_thresholds [of 24 20 59] getBatteryStatus_thresholds [of 21 20 100]
    getBatteryStatus_thresholds [of 24 40 100] getBatteryStatus_thresholds [of 24 20 70]
    getBatteryStatus_thresholds [of 24 20 100]
  by simp

section \<open>Double-precision arithmetic: results\<close>


subsection \<open>Signs of rounded numbers\<close>







subsection \<open>Rounding is to the nearest double\<close>

lemma nearest_even_error:
  fixes a s :: nat
  assumes "0 < s"
  defines "q1 \<equiv> nearest_even (a div 2 ^ s) (a mod 2 ^ s) (2 ^ (s - 1))"
  shows "2 * \<bar>int q1 * 2 ^ s - int a\<bar> \<le> 2 ^ s"
proof -
  define q0 where "q0 = a div 2 ^ s"
  define r where "r = a mod 2 ^ s"
  have "a = q0 * 2 ^ s + r"
    unfolding q0_def r_def by (rule div_mult_mod_eq [symmetric])
  then have "int a = int (q0 * 2 ^ s + r)" by (rule arg_cong)
  then have a: "int a = int q0 * 2 ^ s + int r" by simp
  have r: "r < 2 ^ s" by (simp add: r_def)
  from assms(1) have two: "(2::nat) ^ s = 2 * 2 ^ (s - 1)"
    by (cases s) simp_all
  show ?thesis
  proof (cases "r > 2 ^ (s - 1) \<or> (r = 2 ^ (s - 1) \<and> odd q0)")
    case True
    then have q1: "q1 = q0 + 1" by (simp add: q1_def nearest_even_def q0_def r_def)
    from True have "2 ^ (s - 1) \<le> r" by auto
    then have "int (2 ^ s) \<le> 2 * int r" using two by simp
    moreover have "int r < int (2 ^ s)" using r by simp
    ultimately show ?thesis
      by (simp add: q1 a algebra_simps)
  next
    case False
    then have q1: "q1 = q0" by (simp add: q1_def nearest_even_def q0_def r_def)
    from False have "r \<le> 2 ^ (s - 1)" by auto
    then have "2 * int r \<le> int (2 ^ s)" using two by simp
    then show ?thesis by (simp add: q1 a)
  qed
qed

lemma real_of_double_powr:
  "real_of_double (Double m e) = real_of_int m * 2 powr real_of_int e"
proof (cases "0 \<le> e")
  case True
  then show ?thesis by (simp add: powr_realpow [symmetric])
next
  case False
  then have "real (nat (- e)) = - real_of_int e" by simp
  then have "2 powr real_of_int e = 2 powr (- real (nat (- e)))" by simp
  also have "\<dots> = 1 / 2 ^ nat (- e)"
    by (simp only: powr_minus_divide powr_realpow [of 2, simplified])
  finally show ?thesis using False by simp
qed

lemma round_to_double_exact:
  assumes "bit_length (nat \<bar>m\<bar>) \<le> 53"
  shows "real_of_double (round_to_double m e) = real_of_int m * 2 powr real_of_int e"
proof (cases "m = 0")
  case True
  then show ?thesis by (simp add: round_to_double_def)
next
  case False
  define j where "j = 53 - bit_length (nat \<bar>m\<bar>)"
  have eq: "round_to_double m e = Double (m * 2 ^ j) (e - int j)"
    using assms False by (simp add: round_to_double_def round_bits_def j_def)
  have "2 powr real_of_int e = 2 powr real_of_int (e - int j) * 2 ^ j"
    by (simp add: powr_diff powr_realpow)
  then show ?thesis
    by (simp add: eq real_of_double_powr del: real_of_double.simps)
qed

lemma carry_denotes:
  "real_of_double (carry sg e q) = real_of_int sg * real q * 2 powr real_of_int e"
proof (cases "q = 2 ^ 53")
  case True
  have "2 powr real_of_int (e + 1) = 2 powr real_of_int e * 2"
    by (simp add: powr_add)
  with True show ?thesis
    by (simp add: carry_def real_of_double_powr del: real_of_double.simps)
next
  case False
  then show ?thesis
    by (simp add: carry_def real_of_double_powr del: real_of_double.simps)
qed

lemma round_to_double_nearest:
  assumes "53 < bit_length (nat \<bar>m\<bar>)"
  shows "2 * \<bar>real_of_double (round_to_double m e) - real_of_int m * 2 powr real_of_int e\<bar>
           \<le> 2 powr real_of_int (e + int (bit_length (nat \<bar>m\<bar>) - 53))"
proof -
  define a where "a = nat \<bar>m\<bar>"
  define s where "s = bit_length a - 53"
  define q1 where "q1 = nearest_even (a div 2 ^ s) (a mod 2 ^ s) (2 ^ (s - 1))"
  from assms have s: "0 < s" by (simp add: s_def a_def)
  have "bit_length 0 = 0" by (subst bit_length.simps) simp
  with assms have "a \<noteq> 0" by (auto simp: a_def)
  then have m0: "m \<noteq> 0" by (auto simp: a_def)
  have eq: "round_to_double m e = carry (sgn m) (e + int s) q1"
    unfolding q1_def s_def a_def
    using assms m0 by (simp add: round_to_double_def round_bits_def)
  have "real_of_int m = real_of_int (sgn m * \<bar>m\<bar>)"
    by (simp only: mult_sgn_abs)
  moreover have "real a = real_of_int \<bar>m\<bar>"
    by (simp add: a_def)
  ultimately have m: "real_of_int m = real_of_int (sgn m) * real a"
    by (simp only: of_int_mult)
  have sg: "\<bar>real_of_int (sgn m)\<bar> = 1" using m0 by (simp add: sgn_if)
  have p: "2 powr (real_of_int e + real s) = 2 powr real_of_int e * 2 ^ s"
    by (simp add: powr_add powr_realpow)
  have "real_of_double (round_to_double m e) - real_of_int m * 2 powr real_of_int e
      = real_of_int (sgn m) * (real q1 * 2 ^ s - real a) * 2 powr real_of_int e"
    by (subst m) (simp add: eq carry_denotes p algebra_simps)
  then have "\<bar>real_of_double (round_to_double m e) - real_of_int m * 2 powr real_of_int e\<bar>
      = \<bar>real q1 * 2 ^ s - real a\<bar> * 2 powr real_of_int e"
    by (simp add: abs_mult sg)
  moreover have "2 * \<bar>real q1 * 2 ^ s - real a\<bar> \<le> 2 ^ s"
  proof -
    from nearest_even_error [OF s, of a] have "2 * \<bar>int q1 * 2 ^ s - int a\<bar> \<le> 2 ^ s"
      by (simp add: q1_def)
    then have "real_of_int (2 * \<bar>int q1 * 2 ^ s - int a\<bar>) \<le> real_of_int (2 ^ s)"
      by (rule of_int_le_iff [THEN iffD2])
    then show ?thesis by simp
  qed
  ultimately have "2 * \<bar>real_of_double (round_to_double m e) - real_of_int m * 2 powr real_of_int e\<bar>
      \<le> 2 ^ s * 2 powr real_of_int e"
    by (simp add: mult_right_mono)
  also have "\<dots> = 2 powr real_of_int (e + int s)"
    by (simp add: p)
  finally show ?thesis by (simp only: s_def a_def)
qed

lemma constants_denote:
  "real_of_double dbl_0 = 0" "real_of_double dbl_1 = 1" "real_of_double dbl_2 = 2"
  "real_of_double dbl_4 = 4" "real_of_double dbl_1000 = 1000"
  "\<bar>real_of_double dbl_0999 - 0.999\<bar> \<le> 1 / 2 ^ 54"
  "\<bar>real_of_double eclipse_power - 235.2\<bar> \<le> 1 / 2 ^ 46"
  "\<bar>real_of_double sunlit_power - 2100.3\<bar> \<le> 1 / 2 ^ 42"
  by (simp_all add: dbl_0_def dbl_1_def dbl_2_def dbl_4_def dbl_1000_def dbl_0999_def
      eclipse_power_def sunlit_power_def)

section \<open>Rolling statistical model: results\<close>

subsection \<open>Square roots and the guard\<close>








subsection \<open>The stored statistics are those of the window\<close>

lemma updateStatistics_dataPoints [simp]: "dataPoints (updateStatistics m) = dataPoints m"
  by (simp add: updateStatistics_def Let_def)




lemma windowSize_addDataPoint [simp]: "windowSize (addDataPoint m v) = windowSize m"
  by (simp add: addDataPoint_def updateStatistics_def Let_def)


lemma model_after_snoc: "model_after w (vs @ [v]) = addDataPoint (model_after w vs) v"
  by (simp add: model_after_def)

lemma windowSize_model_after [simp]: "windowSize (model_after w vs) = w"
  by (induction vs rule: rev_induct) (simp_all add: model_after_snoc, simp add: model_after_def StatisticalModel_new_def)






subsection \<open>Worked windows\<close>





section \<open>Alert lifecycle: results\<close>

lemma core_fields:
  "core a = core b \<Longrightarrow> timestamp a = timestamp b"
  "core a = core b \<Longrightarrow> anomalyId a = anomalyId b"
  "core a = core b \<Longrightarrow> same_key a x = same_key b x"
  "core a = core b \<Longrightarrow> same_key y a = same_key y b"
  by (simp_all add: core_def same_key_def)

lemma core_update_nth:
  assumes "\<And>x. core (g x) = core x"
  shows "core (h[a := g (h ! a)] ! b) = core (h ! b)"
proof (cases "a < length h")
  case True
  then show ?thesis using assms by (cases "a = b") simp_all
next
  case False
  then show ?thesis by (simp add: list_update_beyond)
qed

lemma core_mark [simp]:
  "core (x\<lparr>acknowledged := u, acknowledgedAt := v, acknowledgedBy := w\<rparr>) = core x"
  by (simp add: core_def)

lemma core_mark_nth:
  "core (h[a := (h ! a)\<lparr>acknowledged := u, acknowledgedAt := v, acknowledgedBy := w\<rparr>] ! b)
     = core (h ! b)"
  by (rule core_update_nth [where g = "\<lambda>x. x\<lparr>acknowledged := u, acknowledgedAt := v, acknowledgedBy := w\<rparr>"]) simp

lemma cleanup_core: "core (snd (cleanup_filter now as h) ! b) = core (h ! b)"
proof (induction as arbitrary: h)
  case Nil
  show ?case by simp
next
  case (Cons a as)
  show ?case
    by (simp add: Cons split: prod.splits) (metis Cons core_mark_nth snd_conv)
qed

lemma cleanup_length: "length (snd (cleanup_filter now as h)) = length h"
proof (induction as arbitrary: h)
  case Nil
  show ?case by simp
next
  case (Cons a as)
  show ?case
    by (simp add: Cons split: prod.splits) (metis Cons snd_conv)
qed

lemma cleanup_kept:
  "fst (cleanup_filter now as h) = filter (\<lambda>a. \<not> now - timestamp (h ! a) > 300000) as"
proof (induction as arbitrary: h)
  case Nil
  show ?case by simp
next
  case (Cons a as)
  have ts: "timestamp (h[a := (h ! a)\<lparr>acknowledged := True, acknowledgedAt := Some now,
              acknowledgedBy := Some ''auto-cleanup''\<rparr>] ! b) = timestamp (h ! b)" for b
    by (rule core_fields(1) [OF core_mark_nth])
  show ?case
    by (simp add: Cons ts split: prod.splits) (metis Cons fst_conv)
qed


subsection \<open>Well-formed stores\<close>

lemma wf_new: "wf AnomalyDetector_new"
  by (simp add: wf_def AnomalyDetector_new_def)

lemma wf_submit: "wf s \<Longrightarrow> wf (submit ts now s di)"
  by (auto simp: wf_def submit_def Let_def less_Suc_eq)

lemma wf_foldl_submit: "wf s \<Longrightarrow> wf (foldl (submit ts now) s ds)"
  by (induction ds arbitrary: s) (simp_all add: wf_submit)

lemma anomalies_cleanup:
  "anomalies (cleanupOldAnomalies now s) =
     filter (\<lambda>a. \<not> now - timestamp (heap s ! a) > 300000) (anomalies s)"
  using cleanup_kept [of now "anomalies s" "heap s"]
  by (cases "cleanup_filter now (anomalies s) (heap s)") (simp add: cleanupOldAnomalies_def)

lemma heap_cleanup:
  "heap (cleanupOldAnomalies now s) = snd (cleanup_filter now (anomalies s) (heap s))"
  by (cases "cleanup_filter now (anomalies s) (heap s)") (simp add: cleanupOldAnomalies_def)

lemma history_cleanup [simp]:
  "anomalyHistory (cleanupOldAnomalies now s) = anomalyHistory s"
  by (cases "cleanup_filter now (anomalies s) (heap s)") (simp add: cleanupOldAnomalies_def)

lemma wf_cleanup: "wf s \<Longrightarrow> wf (cleanupOldAnomalies now s)"
  by (simp add: wf_def anomalies_cleanup heap_cleanup cleanup_length)

lemma wf_process: "wf s \<Longrightarrow> wf (processDetectedAnomalies ds ts now s)"
proof -
  assume "wf s"
  then have w: "wf (cleanupOldAnomalies now (foldl (submit ts now) s ds))"
    by (intro wf_cleanup wf_foldl_submit)
  show ?thesis
    using w by (auto simp: processDetectedAnomalies_def Let_def wf_def dest: in_set_dropD)
qed

lemma wf_tick: "wf s \<Longrightarrow> wf (processTelemetry ds ts now s)"
  by (simp add: processTelemetry_def wf_process)

lemma wf_ack: "wf s \<Longrightarrow> wf (snd (acknowledgeAnomaly i operator now s))"
  by (auto simp: acknowledgeAnomaly_def wf_def Let_def split: option.splits)

lemma reachable_wf: "reachable s \<Longrightarrow> wf s"
  by (induction rule: reachable.induct) (simp_all add: wf_new wf_tick wf_ack)

lemma synchronous_reachable: "synchronous s \<Longrightarrow> reachable s"
  by (induction rule: synchronous.induct) (auto intro: reachable.intros)

subsection \<open>Submitting one finding\<close>

lemma submit_duplicate: "isDuplicateAnomaly now s (with_metadata (fst di) (snd di) ts) \<Longrightarrow> submit ts now s di = s"
  by (simp add: submit_def)

lemma active_submit:
  assumes "wf s"
  shows "active_alerts (submit ts now s di) =
     (if isDuplicateAnomaly now s (with_metadata (fst di) (snd di) ts) then active_alerts s
      else active_alerts s @ [with_metadata (fst di) (snd di) ts])"
  using assms by (auto simp: active_alerts_def submit_def Let_def wf_def nth_append)

lemma not_duplicate_far:
  assumes "\<not> isDuplicateAnomaly now s n" and "x \<in> set (active_alerts s)" and "same_key x n"
  shows "now - timestamp x \<ge> 30000"
  using assms
  by (auto simp: isDuplicateAnomaly_def active_alerts_def list_ex_iff same_key_def)

subsection \<open>The pairwise separation of alerts\<close>

lemma dedup_ok_snoc:
  "dedup_ok (xs @ [n]) \<longleftrightarrow>
     dedup_ok xs \<and> (\<forall>x \<in> set xs. same_key x n \<longrightarrow> \<bar>timestamp x - timestamp n\<bar> \<ge> 30000)"
  by (induction xs) (auto simp: list_all_iff)

lemma dedup_ok_sub:
  assumes "dedup_ok (map (\<lambda>a. h ! a) as)" and "\<And>b. core (h' ! b) = core (h ! b)"
  shows "dedup_ok (map (\<lambda>a. h' ! a) (filter Q as))"
  using assms(1)
proof (induction as)
  case Nil
  show ?case by simp
next
  case (Cons a as)
  have k: "same_key (h' ! x) (h' ! y) = same_key (h ! x) (h ! y)" for x y
    using assms(2) [of x] assms(2) [of y] by (simp add: core_def same_key_def)
  have t: "timestamp (h' ! x) = timestamp (h ! x)" for x
    by (rule core_fields(1) [OF assms(2)])
  from Cons show ?case by (auto simp: list_all_iff k t)
qed

lemma dedup_submit:
  assumes "wf s" and "dedup_ok (active_alerts s)"
  shows "dedup_ok (active_alerts (submit ts ts s di))"
proof (cases "isDuplicateAnomaly ts s (with_metadata (fst di) (snd di) ts)")
  case True
  with assms show ?thesis by (simp add: submit_duplicate)
next
  case False
  have "\<bar>timestamp x - ts\<bar> \<ge> 30000"
    if "x \<in> set (active_alerts s)" and "same_key x (with_metadata (fst di) (snd di) ts)" for x
    using not_duplicate_far [OF False that] by simp
  then show ?thesis
    using False assms by (simp add: active_submit dedup_ok_snoc with_metadata_def)
qed

lemma dedup_foldl_submit:
  "wf s \<Longrightarrow> dedup_ok (active_alerts s) \<Longrightarrow> dedup_ok (active_alerts (foldl (submit ts ts) s ds))"
  by (induction ds arbitrary: s) (simp_all add: wf_submit dedup_submit)

lemma dedup_cleanup:
  "dedup_ok (active_alerts s) \<Longrightarrow> dedup_ok (active_alerts (cleanupOldAnomalies now s))"
  unfolding active_alerts_def anomalies_cleanup heap_cleanup
  by (rule dedup_ok_sub) (simp_all add: cleanup_core)

lemma active_trim [simp]: "active_alerts (s\<lparr>anomalyHistory := hs\<rparr>) = active_alerts s"
  by (simp add: active_alerts_def)

lemma dedup_tick:
  assumes "wf s" and "dedup_ok (active_alerts s)"
  shows "dedup_ok (active_alerts (processTelemetry ds ts ts s))"
  using dedup_cleanup [OF dedup_foldl_submit [OF assms], of ts ts ds] assms(2)
  by (simp add: processTelemetry_def processDetectedAnomalies_def Let_def)

lemma dedup_ack:
  assumes "dedup_ok (active_alerts s)"
  shows "dedup_ok (active_alerts (snd (acknowledgeAnomaly i operator now s)))"
proof (cases "find (\<lambda>a. anomalyId (heap s ! a) = i) (anomalies s)")
  case None
  with assms show ?thesis by (simp add: acknowledgeAnomaly_def)
next
  case (Some a)
  have "dedup_ok (map (\<lambda>b. (heap s)[a := (heap s ! a)\<lparr>acknowledged := True,
          acknowledgedAt := Some now, acknowledgedBy := Some operator\<rparr>] ! b)
        (filter Q (anomalies s)))" for Q
    using assms unfolding active_alerts_def
    by (rule dedup_ok_sub) (rule core_mark_nth)
  with Some show ?thesis
    by (simp add: acknowledgeAnomaly_def Let_def active_alerts_def)
qed

lemma synchronous_dedup: "synchronous s \<Longrightarrow> dedup_ok (active_alerts s)"
proof (induction rule: synchronous.induct)
  case synchronous_new
  show ?case by (simp add: active_alerts_def AnomalyDetector_new_def)
next
  case (synchronous_tick s detected ts)
  then show ?case
    by (simp add: dedup_tick reachable_wf synchronous_reachable)
next
  case (synchronous_ack s i operator now)
  then show ?case by (simp add: dedup_ack)
qed

lemma duplicate_suppressed:
  assumes "filter (\<lambda>a. same_key (heap s ! a) d) (anomalies s) = [e]"
    and "now - timestamp (heap s ! e) < 30000"
  shows "filter (\<lambda>a. same_key (heap (processTelemetry [(d, i)] ts now s) ! a) d)
           (anomalies (processTelemetry [(d, i)] ts now s)) = [e]"
proof -
  from assms(1) have "e \<in> set (filter (\<lambda>a. same_key (heap s ! a) d) (anomalies s))" by simp
  then have e: "e \<in> set (anomalies s)" "same_key (heap s ! e) d" by simp_all
  with assms(2) have "isDuplicateAnomaly now s (with_metadata d i ts)"
    by (auto simp: isDuplicateAnomaly_def list_ex_iff same_key_def with_metadata_def)
  then have sub: "submit ts now s (d, i) = s"
    by (simp add: submit_duplicate)
  have k: "same_key (snd (cleanup_filter now (anomalies s) (heap s)) ! a) d = same_key (heap s ! a) d" for a
    by (rule core_fields(3) [OF cleanup_core])
  have "filter (\<lambda>a. same_key (heap s ! a) d)
          (filter (\<lambda>a. \<not> now - timestamp (heap s ! a) > 300000) (anomalies s))
        = filter (\<lambda>a. \<not> now - timestamp (heap s ! a) > 300000)
            (filter (\<lambda>a. same_key (heap s ! a) d) (anomalies s))"
    by (simp add: conj_commute)
  also have "\<dots> = [e]" using assms by simp
  finally show ?thesis
    by (simp add: processTelemetry_def processDetectedAnomalies_def Let_def sub
        anomalies_cleanup heap_cleanup k)
qed

lemmas lifecycle_defs =
  processTelemetry_def processDetectedAnomalies_def submit_def isDuplicateAnomaly_def
  cleanupOldAnomalies_def AnomalyDetector_new_def with_metadata_def Let_def
  battery_temp_critical_def solar_power_warning_def

lemma one_alert_eval:
  "one_alert = \<lparr>heap = [with_metadata battery_temp_critical ''a1'' 0], anomalies = [0],
      anomalyHistory = [0]\<rparr>"
  by (simp add: one_alert_def lifecycle_defs)

lemma skewed_pair_eval:
  "skewed_pair = \<lparr>heap = [with_metadata battery_temp_critical ''a1'' 0,
        with_metadata battery_temp_critical ''a2'' 29999], anomalies = [0, 1],
      anomalyHistory = [0, 1]\<rparr>"
  by (simp add: skewed_pair_def one_alert_eval) (simp add: lifecycle_defs)

lemma spaced_pair_eval:
  "spaced_pair = \<lparr>heap = [with_metadata battery_temp_critical ''a1'' 0,
        with_metadata battery_temp_critical ''a2'' 30000], anomalies = [0, 1],
      anomalyHistory = [0, 1]\<rparr>"
  by (simp add: spaced_pair_def one_alert_eval) (simp add: lifecycle_defs)



text \<open>
  The duplicate check compares the clock with the stored timestamps, not the timestamp of
  the new alert. A sample stamped 29999 whose findings are checked when the clock reads
  30000 passes the check against an alert stamped 0: both alerts are active, identical in
  subsystem, parameter, type and severity, and 29999 ms apart.
\<close>

theorem dedup_window_counterexample:
  "reachable skewed_pair \<and> getActiveAnomalies skewed_pair = [0, 1]
   \<and> same_key (heap skewed_pair ! 0) (heap skewed_pair ! 1)
   \<and> timestamp (heap skewed_pair ! 0) = 0 \<and> timestamp (heap skewed_pair ! 1) = 29999
   \<and> \<not> dedup_ok (active_alerts skewed_pair)"
proof -
  have "reachable skewed_pair"
    unfolding skewed_pair_def one_alert_def by (intro reachable.intros)
  then show ?thesis
    by (simp add: skewed_pair_eval getActiveAnomalies_def active_alerts_def same_key_def
        with_metadata_def)
qed

text \<open>
  C4, amended: in every state reached by processing each sample at the instant of its own
  timestamp, no two active alerts identical in subsystem, parameter, type and severity have
  detection times less than 30 s apart; and in any state, submitting a finding identical to
  the one active alert of its kind while the clock reads less than 30 s past that alert's
  timestamp leaves exactly that one alert of the kind active.
\<close>

theorem dedup_window:
  "(synchronous s \<longrightarrow> dedup_ok (active_alerts s)) \<and>
   (filter (\<lambda>a. same_key (heap s ! a) d) (anomalies s) = [e] \<and>
    now - timestamp (heap s ! e) < 30000 \<longrightarrow>
      filter (\<lambda>a. same_key (heap (processTelemetry [(d, i)] ts now s) ! a) d)
        (anomalies (processTelemetry [(d, i)] ts now s)) = [e])"
  using synchronous_dedup duplicate_suppressed by blast

theorem dedup_window_witness:
  "synchronous spaced_pair \<and> dedup_ok (active_alerts spaced_pair)
   \<and> map timestamp (active_alerts spaced_pair) = [0, 30000]
   \<and> filter (\<lambda>a. same_key (heap one_alert ! a) battery_temp_critical) (anomalies one_alert) = [0]
   \<and> 29999 - timestamp (heap one_alert ! 0) < 30000
   \<and> filter (\<lambda>a. same_key
          (heap (processTelemetry [(battery_temp_critical, ''a2'')] 29999 29999 one_alert) ! a)
          battery_temp_critical)
        (anomalies (processTelemetry [(battery_temp_critical, ''a2'')] 29999 29999 one_alert)) = [0]"
proof -
  have syn: "synchronous spaced_pair"
    unfolding spaced_pair_def one_alert_def by (intro synchronous.intros)
  have one: "filter (\<lambda>a. same_key (heap one_alert ! a) battery_temp_critical) (anomalies one_alert) = [0]"
    by (simp add: one_alert_eval same_key_def with_metadata_def)
  have near: "29999 - timestamp (heap one_alert ! 0) < 30000"
    by (simp add: one_alert_eval with_metadata_def)
  have ts: "map timestamp (active_alerts spaced_pair) = [0, 30000]"
    by (simp add: spaced_pair_eval active_alerts_def with_metadata_def)
  show ?thesis
    using dedup_window [of spaced_pair] 
      dedup_window [of one_alert battery_temp_critical 0 29999 "''a2''" 29999]
      syn one near ts
    by simp
qed

subsection \<open>What submitting keeps\<close>



subsection \<open>The sweep\<close>





subsection \<open>Bound on the alert history\<close>

lemma history_bound_process: "length (anomalyHistory (processDetectedAnomalies ds ts now s)) \<le> 1000"
  by (simp add: processDetectedAnomalies_def Let_def)

lemma history_ack [simp]: "anomalyHistory (snd (acknowledgeAnomaly i operator now s)) = anomalyHistory s"
  by (simp add: acknowledgeAnomaly_def Let_def split: option.splits)

lemma reachable_history_bound: "reachable s \<Longrightarrow> length (anomalyHistory s) \<le> 1000"
  by (induction rule: reachable.induct)
    (simp_all add: AnomalyDetector_new_def processTelemetry_def history_bound_process)

subsection \<open>Manual acknowledgement\<close>




section \<open>Partitioning scorer: results\<close>

lemma ceil_log2_50: "nat \<lceil>log 2 (50::real)\<rceil> = 6"
proof -
  have "log 2 (50::real) \<le> 6"
    by (subst log_le_iff) (simp_all add: powr_numeral)
  moreover have "5 < log 2 (50::real)"
    by (subst less_log_iff) (simp_all add: powr_numeral)
  ultimately have "\<lceil>log 2 (50::real)\<rceil> = 6"
    by (intro ceiling_unique) simp_all
  then show ?thesis by simp
qed

lemma foldl_absorb: "f a b = a \<Longrightarrow> foldl f a (replicate n b) = a"
  by (induction n) simp_all

lemma train_trainingData [simp]: "trainingData (fst (train rnd shufs k f)) = trainingData f"
  by (simp add: train_def Let_def)

lemma addTrainingData_pool:
  "trainingData (fst (addTrainingData rnd shufs k f v)) =
     (if length (trainingData f) + 1 > 500 then tl (trainingData f @ [v]) else trainingData f @ [v])"
  by (simp add: addTrainingData_def Let_def)

lemma feed_quiet:
  "length (trainingData f) + length vs < 100 \<Longrightarrow>
   feed rnd shufs (f, k) vs = (f\<lparr>trainingData := trainingData f @ vs\<rparr>, k)"
proof (induction vs arbitrary: f)
  case Nil
  show ?case by simp
next
  case (Cons v vs)
  then have "addTrainingData rnd shufs k f v = (f\<lparr>trainingData := trainingData f @ [v]\<rparr>, k)"
    by (simp add: addTrainingData_def Let_def)
  with Cons show ?case by simp
qed

lemma feed_snoc:
  "feed rnd shufs fk (vs @ [v]) =
     addTrainingData rnd shufs (snd (feed rnd shufs fk vs)) (fst (feed rnd shufs fk vs)) v"
  by (induction vs arbitrary: fk) simp_all

lemma foldl_settle:
  "f a b = b \<Longrightarrow> f b b = b \<Longrightarrow> 0 < n \<Longrightarrow> foldl f a (replicate n b) = b"
  by (cases n) (simp_all add: foldl_absorb)

lemma constant_leaf:
  assumes "feature v (nat \<lfloor>rnd k * real (length v)\<rfloor>) = Num x" and "2 \<le> n" and "d < m"
  shows "buildTree rnd (replicate n v) d m k = (Leaf n, k + 1)"
proof -
  from assms(2) obtain j where n: "n = Suc j" by (cases n) simp_all
  have mn: "Math_min_of (replicate n (Num x)) = Num x"
    by (simp add: n foldl_absorb)
  have mx: "Math_max_of (replicate n (Num x)) = Num x"
    by (simp add: n foldl_absorb)
  have hd: "hd (replicate n v) = v" by (simp add: n)
  show ?thesis
    using assms(2,3)
    by (subst buildTree.simps) (simp add: hd assms(1) mn mx Let_def)
qed

lemma subsample_tree:
  assumes "k mod 3 = 0"
  shows "buildTree draws (odd_vector # replicate 49 nominal_vector) 0 6 k = (split_on_first, k + 3)"
proof -
  from assms have d: "draws k = 0" "draws (Suc k) = 1 / 2" "draws (k + 2) = 0"
    by (simp_all add: draws_def) presburger+
  have f0: "feature odd_vector 0 = Num 25" "feature nominal_vector 0 = Num 24"
    by (simp_all add: feature_def odd_vector_def nominal_vector_def)
  have mn: "foldl Math_min (Num 25) (replicate 49 (Num 24)) = Num 24"
    by (rule foldl_settle) simp_all
  have mx: "foldl Math_max (Num 25) (replicate 49 (Num 24)) = Num 25"
    by (rule foldl_absorb) simp
  have "feature nominal_vector (nat \<lfloor>draws (k + 2) * real (length nominal_vector)\<rfloor>) = Num 24"
    by (simp only: d f0) (simp add: f0)
  from constant_leaf [where rnd = draws and k = "k + 2" and v = nominal_vector and x = 24
      and n = 49 and d = "Suc 0" and m = 6, OF this]
  have left: "buildTree draws (replicate 49 nominal_vector) (Suc 0) 6 (Suc (Suc k)) = (Leaf 49, k + 3)"
    by (simp add: numeral_3_eq_3)
  have right: "buildTree draws [odd_vector] (Suc 0) 6 j = (Leaf 1, j)" for j
    by (subst buildTree.simps) simp
  show ?thesis
    by (subst buildTree.simps)
      (simp add: d f0 mn mx Let_def left right split_on_first_def)
qed

lemma train_loop_pool:
  assumes "trainingData f = pool" and "subsampleSize f = 50" and "k mod 3 = 0"
  shows "train_loop draws unshuffled f n i ts k = (ts @ replicate n split_on_first, k + 3 * n)"
  using assms(3)
proof (induction n arbitrary: i ts k)
  case 0
  show ?case by simp
next
  case (Suc n)
  have sub: "createSubsample (unshuffled i) f = odd_vector # replicate 49 nominal_vector"
    by (simp add: createSubsample_def unshuffled_def assms pool_def Let_def)
  from Suc.prems have "(k + 3) mod 3 = 0" by presburger
  from Suc.IH [OF this] show ?case
    by (simp add: sub assms(2) ceil_log2_50 subsample_tree [OF Suc.prems]
        replicate_append_same)
qed

lemma trained_forest_eval:
  "trained_forest = \<lparr>numTrees = 10, subsampleSize = 50, trees = replicate 10 split_on_first,
      trainingData = pool, trained = True\<rparr>"
proof -
  have p: "pool = (odd_vector # replicate 98 nominal_vector) @ [nominal_vector]"
    using replicate_append_same [of 98 nominal_vector]
    by (simp add: pool_def flip: replicate_Suc)
  define f99 :: IsolationForest where
    "f99 = \<lparr>numTrees = 10, subsampleSize = 50, trees = [],
       trainingData = odd_vector # replicate 98 nominal_vector, trained = False\<rparr>"
  have q: "feed draws unshuffled (IsolationForest_new 10 50, 0) (odd_vector # replicate 98 nominal_vector)
      = (f99, 0)"
    by (subst feed_quiet) (simp_all add: IsolationForest_new_def f99_def)
  define f100 where "f100 = f99\<lparr>trainingData := pool\<rparr>"
  have t: "train_loop draws unshuffled f100 10 0 [] 0 = (replicate 10 split_on_first, 30)"
    using train_loop_pool [of f100 0 10 0 "[]"] by (simp add: f100_def f99_def)
  have "addTrainingData draws unshuffled 0 f99 nominal_vector = train draws unshuffled 0 f100"
    by (simp add: addTrainingData_def Let_def f100_def p) (simp add: f99_def)
  also have "\<dots> = (f100\<lparr>trees := replicate 10 split_on_first, trained := True\<rparr>, 30)"
  proof -
    have "numTrees f100 = 10" "length (trainingData f100) = 100"
      by (simp_all add: f100_def f99_def pool_def)
    then show ?thesis by (simp add: train_def Let_def t)
  qed
  finally have last: "addTrainingData draws unshuffled 0 f99 nominal_vector =
      (f100\<lparr>trees := replicate 10 split_on_first, trained := True\<rparr>, 30)" .
  have "feed draws unshuffled (IsolationForest_new 10 50, 0) pool =
      addTrainingData draws unshuffled (snd (f99, 0::nat)) (fst (f99, 0::nat)) nominal_vector"
    by (simp only: p feed_snoc q)
  then show ?thesis
    by (simp add: trained_forest_def last) (simp add: f100_def f99_def)
qed

lemma foldl_nan: "0 < n \<Longrightarrow> foldl (\<lambda>sum len. num_add sum len) a (replicate n NaN) = NaN"
  by (cases n) (simp_all add: foldl_absorb)

lemma feed_reachable:
  "forest_reachable (fst fk) \<Longrightarrow> forest_reachable (fst (feed rnd shufs fk vs))"
proof (induction vs arbitrary: fk)
  case Nil
  then show ?case by simp
next
  case (Cons v vs)
  have "forest_reachable (fst (addTrainingData rnd shufs (snd fk) (fst fk) v))"
    by (rule forest_add [OF Cons.prems])
  from Cons.IH [OF this] show ?case by simp
qed

lemma predict_range:
  assumes "predict f features = Num r"
  shows "0 \<le> r \<and> r \<le> 1"
proof (cases "\<not> trained f \<or> length (trees f) = 0")
  case True
  with assms show ?thesis by (simp add: predict_def)
next
  case False
  define v where "v = num_sub (Num 1)
    (num_div (num_div (foldl (\<lambda>sum len. num_add sum len) (Num 0)
        (map (\<lambda>tree. getPathLength features tree 0) (trees f)))
      (Num (real (length (map (\<lambda>tree. getPathLength features tree 0) (trees f))))))
     (Num (log 2 (real (subsampleSize f)))))"
  from False assms have "Math_max (Num 0) (Math_min (Num 1) v) = Num r"
    by (simp add: predict_def Let_def v_def)
  then show ?thesis by (cases v) auto
qed

text \<open>
  C2: the score is meant to lie in \<open>[0, 1]\<close>. An untrained scorer returns 0, and a
  score that is a number lies in \<open>[0, 1]\<close>. But after the retraining that the hundredth
  vector triggers, with each root split on feature 0, the path length is not a number (the
  test \<^verbatim>\<open>!tree.featureIndex\<close> takes the root for a leaf and reads its absent size),
  and so is the score, for every feature vector.
\<close>

theorem predict_not_a_number:
  "forest_reachable trained_forest \<and> predict trained_forest features = NaN \<and>
   predict (IsolationForest_new n m) features = Num 0 \<and>
   (predict f features = Num r \<longrightarrow> 0 \<le> r \<and> r \<le> 1)"
proof -
  have "forest_reachable (fst (IsolationForest_new 10 50, 0::nat))"
    by (simp add: forest_new)
  then have r: "forest_reachable trained_forest"
    unfolding trained_forest_def by (rule feed_reachable)
  have "predict trained_forest features = NaN"
    by (simp add: predict_def trained_forest_eval split_on_first_def Let_def foldl_nan)
  moreover have "predict (IsolationForest_new n m) features = Num 0"
    by (simp add: predict_def IsolationForest_new_def)
  ultimately show ?thesis using r predict_range [of f features r] by simp
qed

theorem predict_not_a_number_witness:
  "forest_reachable trained_forest \<and> predict trained_forest nominal_vector = NaN \<and>
   predict (IsolationForest_new 10 50) nominal_vector = Num 0"
  using predict_not_a_number [of nominal_vector 10 50] by simp

section \<open>Telemetry simulator: results\<close>

lemma draws_range: "0 \<le> draws k \<and> draws k < 1"
  by (simp add: draws_def)

subsection \<open>Histories\<close>

lemma dataHistory_clearFailure [simp]: "dataHistory (clearFailure sub s) = dataHistory s"
  by (simp add: clearFailure_def)

lemma dataHistory_simulateFailure [simp]: "dataHistory (simulateFailure sub now s) = dataHistory s"
  by (simp add: simulateFailure_def)

lemma dataHistory_foldl_clear [simp]:
  "dataHistory (foldl (\<lambda>s' t. clearFailure (snd t) s') s ts) = dataHistory s"
  by (induction ts arbitrary: s) simp_all

lemma dataHistory_runTimers [simp]: "dataHistory (runTimers now s) = dataHistory s"
  by (simp add: runTimers_def)

lemma histories_ok_tick:
  "histories_ok (dataHistory s) \<Longrightarrow> histories_ok (dataHistory (generateTelemetryPoint p s))"
  by (auto simp: histories_ok_def generateTelemetryPoint_def Let_def)

lemma sim_reachable_histories: "sim_reachable s \<Longrightarrow> histories_ok (dataHistory s)"
  by (induction rule: sim_reachable.induct)
    (simp_all add: histories_ok_tick, simp add: histories_ok_def TelemetrySimulator_new_def)

subsection \<open>Training pool\<close>

lemma pool_bound_add:
  "length (trainingData f) \<le> 500 \<Longrightarrow>
   length (trainingData (fst (addTrainingData rnd shufs k f v))) \<le> 500"
  by (simp add: addTrainingData_pool)

lemma forest_reachable_pool: "forest_reachable f \<Longrightarrow> length (trainingData f) \<le> 500"
  by (induction rule: forest_reachable.induct)
    (simp_all add: pool_bound_add, simp add: IsolationForest_new_def)

text \<open>
  C6: after any sequence of operations each telemetry history holds at most 300 entries,
  the scorer's training pool at most 500 vectors, and the alert history at most 1000
  entries.
\<close>

theorem capacity_bounds:
  "(sim_reachable s \<longrightarrow>
      length (power_history (dataHistory s)) \<le> 300 \<and> length (thermal (dataHistory s)) \<le> 300 \<and>
      length (communication (dataHistory s)) \<le> 300 \<and> length (attitude (dataHistory s)) \<le> 300 \<and>
      length (anomalies_history (dataHistory s)) \<le> 300) \<and>
   (forest_reachable f \<longrightarrow> length (trainingData f) \<le> 500) \<and>
   (reachable d \<longrightarrow> length (anomalyHistory d) \<le> 1000)"
  using sim_reachable_histories [of s] forest_reachable_pool [of f] reachable_history_bound [of d]
  by (auto simp: histories_ok_def)

theorem capacity_bounds_witness:
  "sim_reachable injected_twice \<and> length (power_history (dataHistory injected_twice)) \<le> 300
   \<and> forest_reachable trained_forest \<and> length (trainingData trained_forest) \<le> 500
   \<and> reachable spaced_pair \<and> length (anomalyHistory spaced_pair) \<le> 1000"
proof -
  have a: "sim_reachable injected_twice"
    unfolding injected_twice_def fresh_simulator_def by (intro sim_reachable.intros)
  have "forest_reachable (fst (IsolationForest_new 10 50, 0::nat))"
    by (simp add: forest_new)
  then have b: "forest_reachable trained_forest"
    unfolding trained_forest_def by (rule feed_reachable)
  have c: "reachable spaced_pair"
    unfolding spaced_pair_def one_alert_def by (intro reachable.intros)
  show ?thesis
    using capacity_bounds [of injected_twice trained_forest spaced_pair] a b c by simp
qed

subsection \<open>The attitude history\<close>

lemma attitude_initializeHistory:
  "attitude (dataHistory (initializeHistory points s)) = attitude (dataHistory s)"
  unfolding initializeHistory_def
  by (induction points arbitrary: s) (simp_all add: generateTelemetryPoint_def Let_def)

text \<open>
  C9: a tick appends the new sample to the power, thermal and communication histories.
  The attitude history is left as it was, and it is empty from the constructor on.
\<close>

theorem attitude_history_never_filled:
  "attitude (dataHistory (generateTelemetryPoint p s)) = attitude (dataHistory s) \<and>
   attitude (dataHistory (initializeHistory points (TelemetrySimulator_new t0))) = [] \<and>
   attitude (dataHistory (generateTelemetryPoint p (TelemetrySimulator_new t0))) = [] \<and>
   power_history (dataHistory (generateTelemetryPoint p (TelemetrySimulator_new t0))) = [p] \<and>
   thermal (dataHistory (generateTelemetryPoint p (TelemetrySimulator_new t0))) = [p] \<and>
   communication (dataHistory (generateTelemetryPoint p (TelemetrySimulator_new t0))) = [p]"
  by (simp add: attitude_initializeHistory)
    (simp add: generateTelemetryPoint_def TelemetrySimulator_new_def Let_def)

theorem attitude_history_never_filled_witness:
  "attitude (dataHistory (generateTelemetryPoint () fresh_simulator)) = [] \<and>
   power_history (dataHistory (generateTelemetryPoint () fresh_simulator)) = [()] \<and>
   attitude (dataHistory (initializeHistory [(), (), ()] fresh_simulator)) = []"
  unfolding fresh_simulator_def
  using attitude_history_never_filled [of "()" "TelemetrySimulator_new 0" "[(), (), ()]" 0]
  by fast

subsection \<open>Fault injection\<close>

lemma flags_foldl_clear:
  "simulatedFailures (foldl (\<lambda>s' t. clearFailure (snd t) s') s ts) x =
     (if x \<in> snd ` set ts \<and> x \<noteq> ''__proto__'' then Some False else simulatedFailures s x)"
  by (induction ts arbitrary: s) (auto simp: clearFailure_def put_property_def)

lemma flags_runTimers:
  "simulatedFailures (runTimers now s) x =
     (if (\<exists>t \<in> set (timers s). fst t \<le> now \<and> snd t = x) \<and> x \<noteq> ''__proto__'' then Some False
      else simulatedFailures s x)"
  by (auto simp: runTimers_def flags_foldl_clear)

lemma timers_foldl_clear [simp]:
  "timers (foldl (\<lambda>s' t. clearFailure (snd t) s') s ts) = timers s"
  by (induction ts arbitrary: s) (simp_all add: clearFailure_def)

lemma timers_runTimers: "timers (runTimers now s) = filter (\<lambda>t. \<not> fst t \<le> now) (timers s)"
  by (simp add: runTimers_def)

lemma flags_simulateFailure:
  "simulatedFailures (simulateFailure sub now s) x =
     (if x = sub \<and> sub \<noteq> ''__proto__'' then Some True else simulatedFailures s x)"
  by (simp add: simulateFailure_def put_property_def)

lemma timers_simulateFailure:
  "timers (simulateFailure sub now s) = timers s @ [(now + 30000, sub)]"
  by (simp add: simulateFailure_def)

lemma fresh_simulator_fields:
  "simulatedFailures fresh_simulator ''battery'' = Some False"
  "simulatedFailures fresh_simulator ''attitude'' = None"
  "timers fresh_simulator = []"
  by (simp_all add: fresh_simulator_def TelemetrySimulator_new_def)

lemma injected_twice_fields:
  "timers injected_twice = [(30000, ''battery''), (40000, ''battery'')]"
  "simulatedFailures injected_twice ''battery'' = Some True"
  by (simp_all add: injected_twice_def timers_simulateFailure flags_simulateFailure
      fresh_simulator_fields)

text \<open>
  Injecting a fault into \<^verbatim>\<open>attitude\<close>, a name the simulator has no flag for, is not
  ignored: the name gets a flag, set to true, and a timer is armed.
\<close>

theorem unknown_subsystem_counterexample:
  "''attitude'' \<notin> known_subsystems
   \<and> simulatedFailures fresh_simulator ''attitude'' = None
   \<and> simulatedFailures (simulateFailure ''attitude'' 0 fresh_simulator) ''attitude'' = Some True
   \<and> timers fresh_simulator = []
   \<and> timers (simulateFailure ''attitude'' 0 fresh_simulator) = [(30000, ''attitude'')]
   \<and> simulateFailure ''attitude'' 0 fresh_simulator \<noteq> fresh_simulator"
proof -
  have "timers (simulateFailure ''attitude'' 0 fresh_simulator) \<noteq> timers fresh_simulator"
    by (simp add: timers_simulateFailure)
  then have "simulateFailure ''attitude'' 0 fresh_simulator \<noteq> fresh_simulator" by auto
  then show ?thesis
    by (simp add: flags_simulateFailure timers_simulateFailure fresh_simulator_fields
        known_subsystems_def)
qed

text \<open>
  C7, amended: injecting a fault into a subsystem name that is not one of battery, solar,
  thermal and communication always returns; it leaves the flags of those four (and of every
  other name), the histories and the other fields unchanged, but it records a flag for the
  unknown name, set to true, and arms a timer that sets that flag to false 30 s later
  (for the name \<^verbatim>\<open>__proto__\<close> the flags stay as they are and only the timer is armed).
\<close>

theorem unknown_subsystem:
  assumes "sub \<notin> known_subsystems"
  shows "(sub \<noteq> ''__proto__'' \<longrightarrow> simulatedFailures (simulateFailure sub now s) sub = Some True) \<and>
         (sub = ''__proto__'' \<longrightarrow> simulatedFailures (simulateFailure sub now s) = simulatedFailures s) \<and>
         (\<forall>x. x \<noteq> sub \<longrightarrow> simulatedFailures (simulateFailure sub now s) x = simulatedFailures s x) \<and>
         simulatedFailures (simulateFailure sub now s) ''battery'' = simulatedFailures s ''battery'' \<and>
         simulatedFailures (simulateFailure sub now s) ''solar'' = simulatedFailures s ''solar'' \<and>
         simulatedFailures (simulateFailure sub now s) ''thermal'' = simulatedFailures s ''thermal'' \<and>
         simulatedFailures (simulateFailure sub now s) ''communication''
           = simulatedFailures s ''communication'' \<and>
         timers (simulateFailure sub now s) = timers s @ [(now + 30000, sub)] \<and>
         dataHistory (simulateFailure sub now s) = dataHistory s \<and>
         startTime (simulateFailure sub now s) = startTime s \<and>
         isRunning (simulateFailure sub now s) = isRunning s \<and>
         missionPhase (simulateFailure sub now s) = missionPhase s \<and>
         (sub \<noteq> ''__proto__'' \<and> now + 30000 \<le> t \<longrightarrow>
            simulatedFailures (runTimers t (simulateFailure sub now s)) sub = Some False)"
proof -
  have known: "sub \<noteq> ''battery''" "sub \<noteq> ''solar''" "sub \<noteq> ''thermal''" "sub \<noteq> ''communication''"
    using assms by (auto simp: known_subsystems_def)
  have "simulatedFailures (simulateFailure sub now s) = simulatedFailures s" if "sub = ''__proto__''"
    using that by (simp add: simulateFailure_def put_property_def)
  moreover have "simulatedFailures (runTimers t (simulateFailure sub now s)) sub = Some False"
    if "sub \<noteq> ''__proto__''" and "now + 30000 \<le> t"
    using that by (auto simp: flags_runTimers timers_simulateFailure)
  moreover have "startTime (simulateFailure sub now s) = startTime s"
    "isRunning (simulateFailure sub now s) = isRunning s"
    "missionPhase (simulateFailure sub now s) = missionPhase s"
    by (simp_all add: simulateFailure_def)
  ultimately show ?thesis
    using known by (simp add: flags_simulateFailure timers_simulateFailure)
qed

theorem unknown_subsystem_witness:
  "''attitude'' \<notin> known_subsystems \<and> ''attitude'' \<noteq> ''__proto__''
   \<and> simulatedFailures (simulateFailure ''attitude'' 0 fresh_simulator) ''attitude'' = Some True
   \<and> simulatedFailures (simulateFailure ''attitude'' 0 fresh_simulator) ''battery'' = Some False
   \<and> timers (simulateFailure ''attitude'' 0 fresh_simulator) = [(30000, ''attitude'')]
   \<and> simulatedFailures (runTimers 30000 (simulateFailure ''attitude'' 0 fresh_simulator)) ''attitude''
        = Some False"
proof -
  have u: "''attitude'' \<notin> known_subsystems" by (simp add: known_subsystems_def)
  show ?thesis
    using unknown_subsystem [OF u, of 0 fresh_simulator 30000] u
    by (simp add: fresh_simulator_fields)
qed

text \<open>
  Two injections into the battery, 10 s apart, leave two pending timers. When the first
  falls due, 20 s after the second injection, it clears the fault; the second timer is
  still pending.
\<close>

theorem fault_timers_counterexample:
  "sim_reachable injected_twice
   \<and> pending ''battery'' injected_twice = 2
   \<and> timers injected_twice = [(30000, ''battery''), (40000, ''battery'')]
   \<and> simulatedFailures injected_twice ''battery'' = Some True
   \<and> simulatedFailures (runTimers 30000 injected_twice) ''battery'' = Some False
   \<and> timers (runTimers 30000 injected_twice) = [(40000, ''battery'')]"
proof -
  have a: "sim_reachable injected_twice"
    unfolding injected_twice_def fresh_simulator_def by (intro sim_reachable.intros)
  show ?thesis
    using a by (simp add: injected_twice_fields pending_def flags_runTimers timers_runTimers)
qed

text \<open>
  C8, amended: each injection sets the subsystem's flag and arms one more timer for it, due
  30 s later, keeping every timer armed before; the timers pending for other subsystems
  are untouched. Running the timers clears the flag of every subsystem that has a timer
  due, whichever injection armed it, and keeps the timers not yet due.
\<close>

theorem fault_timers:
  "pending sub (simulateFailure sub now s) = pending sub s + 1 \<and>
   (x \<noteq> sub \<longrightarrow> pending x (simulateFailure sub now s) = pending x s) \<and>
   timers (simulateFailure sub now s) = timers s @ [(now + 30000, sub)] \<and>
   (sub \<noteq> ''__proto__'' \<longrightarrow> simulatedFailures (simulateFailure sub now s) sub = Some True) \<and>
   simulatedFailures (runTimers t s) x =
     (if (\<exists>tm \<in> set (timers s). fst tm \<le> t \<and> snd tm = x) \<and> x \<noteq> ''__proto__'' then Some False
      else simulatedFailures s x) \<and>
   timers (runTimers t s) = filter (\<lambda>tm. \<not> fst tm \<le> t) (timers s)"
  by (simp add: flags_runTimers timers_runTimers flags_simulateFailure timers_simulateFailure
      pending_def)

theorem fault_timers_witness:
  "pending ''battery'' (simulateFailure ''battery'' 0 fresh_simulator) = 1
   \<and> pending ''battery'' injected_twice = 2
   \<and> pending ''solar'' injected_twice = 0
   \<and> simulatedFailures (runTimers 29999 injected_twice) ''battery'' = Some True
   \<and> simulatedFailures (runTimers 30000 injected_twice) ''battery'' = Some False"
proof -
  have p0: "pending ''battery'' fresh_simulator = 0" "pending ''solar'' fresh_simulator = 0"
    by (simp_all add: pending_def fresh_simulator_fields)
  show ?thesis
    using fault_timers [of "''battery''" 0 fresh_simulator "''solar''"]
      fault_timers [of "''battery''" 10000 "simulateFailure ''battery'' 0 fresh_simulator" "''solar''"]
      fault_timers [of "''battery''" 0 injected_twice "''battery''" 29999]
      fault_timers [of "''battery''" 0 injected_twice "''battery''" 30000]
    by (simp add: p0 injected_twice_fields injected_twice_def [symmetric])
qed

end
